theory Spec2Isabelle
  imports Main "HOL-Library.Sublist"
begin

section \<open>Python strings\<close>

text \<open>
  A Python \<open>str\<close> is a sequence of code points.  The embedding uses \<^typ>\<open>string\<close> and reads
  a \<^typ>\<open>char\<close> as the code point of the same number, so it covers the texts whose code
  points are below 256 (ASCII and Latin-1).  On this range \<open>str.lower\<close> maps one code
  point to one code point and stays in the range.
\<close>

definition is_upper :: "char \<Rightarrow> bool" where
  "is_upper c = (let n = of_char c :: nat in
     (65 \<le> n \<and> n \<le> 90) \<or> (192 \<le> n \<and> n \<le> 222 \<and> n \<noteq> 215))"

definition lower_char :: "char \<Rightarrow> char" where
  "lower_char c = (if is_upper c then char_of (of_char c + 32 :: nat) else c)"

definition lower :: "string \<Rightarrow> string" where
  "lower s = map lower_char s"

text \<open>The code points below 256 on which \<open>str.isspace\<close> holds; \<open>str.strip()\<close> removes them.\<close>

definition is_space :: "char \<Rightarrow> bool" where
  "is_space c = (let n = of_char c :: nat in
     (9 \<le> n \<and> n \<le> 13) \<or> (28 \<le> n \<and> n \<le> 32) \<or> n = 133 \<or> n = 160)"

definition strip :: "string \<Rightarrow> string" where
  "strip s = rev (dropWhile is_space (rev (dropWhile is_space s)))"

text \<open>
  \<open>s.replace(old, new)\<close> for a nonempty \<open>old\<close>: the occurrences of \<open>old\<close> are found from
  left to right, without overlap, and each is replaced.  (For an empty \<open>old\<close> Python
  inserts \<open>new\<close> around every character; the program never does that, and the model
  returns the string unchanged.)
\<close>

function str_replace :: "string \<Rightarrow> string \<Rightarrow> string \<Rightarrow> string" where
  "str_replace old new [] = []"
| "str_replace old new (c # cs) =
     (if old \<noteq> [] \<and> prefix old (c # cs)
      then new @ str_replace old new (drop (length old) (c # cs))
      else c # str_replace old new cs)"
  by pat_completeness auto
termination
  by (relation "measure (\<lambda>(old, new, s). length s)") auto

text \<open>
  \<open>s.split(sep)\<close> for a separator of one character: one more piece than separators.
  A character that is not the separator joins the first piece of the rest, and the rest
  always has a first piece.
\<close>

fun split_on :: "char \<Rightarrow> string \<Rightarrow> string list" where
  "split_on sep [] = [[]]"
| "split_on sep (c # cs) =
     (if c = sep then [] # split_on sep cs
      else (case split_on sep cs of p # ps \<Rightarrow> (c # p) # ps | [] \<Rightarrow> [[c]]))"

text \<open>\<open>sep.join(xs)\<close>\<close>

fun join_str :: "string \<Rightarrow> string list \<Rightarrow> string" where
  "join_str sep [] = []"
| "join_str sep [x] = x"
| "join_str sep (x # y # ys) = x @ sep @ join_str sep (y # ys)"

section \<open>InterestExtractor\<close>

text \<open>
  \<open>get_user_interests\<close> has the same body in \<open>app.py\<close> and \<open>flask_api.py\<close>:
  \<^verbatim>\<open>
  input = input.lower().replace("i'm interested in", "").replace("and", ",")
  return ", ".join([kw.strip() for kw in input.split(",") if kw.strip()])
  \<close>
\<close>

definition phrase :: string where
  "phrase = ''i'm interested in''"

definition clean_input :: "string \<Rightarrow> string" where
  "clean_input s = str_replace ''and'' '','' (str_replace phrase [] (lower s))"

definition keywords_of :: "string \<Rightarrow> string list" where
  "keywords_of s = map strip (filter (\<lambda>kw. strip kw \<noteq> []) (split_on CHR '','' (clean_input s)))"

definition get_user_interests :: "string \<Rightarrow> string" where
  "get_user_interests s = join_str '', '' (keywords_of s)"

text \<open>
  The pipeline as the specification words it (section 4.1): lower-case, remove the phrase,
  replace "and" by a comma, split on commas, trim each piece, drop the empty pieces,
  rejoin.  It is compared with \<open>get_user_interests\<close> below.
\<close>

definition interest_extractor_spec :: "string \<Rightarrow> string" where
  "interest_extractor_spec s =
     (let lowered = lower s;
          without_phrase = str_replace ''i'm interested in'' [] lowered;
          with_commas = str_replace ''and'' '','' without_phrase;
          pieces = split_on CHR '','' with_commas;
          trimmed = map strip pieces;
          kept = filter (\<lambda>p. p \<noteq> []) trimmed
      in join_str '', '' kept)"

text \<open>
  A keyword of an already-clean list: nonempty, without comma, trimmed, lower-case, and
  holding neither "and" nor the phrase that the extractor removes.
\<close>

definition clean_keyword :: "string \<Rightarrow> bool" where
  "clean_keyword k =
     (k \<noteq> [] \<and> CHR '','' \<notin> set k \<and> strip k = k \<and> list_all (\<lambda>c. \<not> is_upper c) k
      \<and> \<not> sublist ''and'' k \<and> \<not> sublist phrase k)"

section \<open>JSON values, Python exceptions\<close>

text \<open>
  What \<open>response.json()\<close> and \<open>request.get_json()\<close> return.  A dict is an association
  list read with \<^const>\<open>map_of\<close>.  The program never computes with a number, so numbers
  are integers here.
\<close>

datatype json =
    JNull
  | JBool bool
  | JNum int
  | JStr string
  | JArr "json list"
  | JObj "(string \<times> json) list"

type_synonym dict = "(string \<times> json) list"

text \<open>
  An exception is its class and its text \<open>str(e)\<close>.  Only instances of \<open>Exception\<close> are
  modelled (\<open>KeyboardInterrupt\<close> and \<open>SystemExit\<close> are not: no handler of the program
  catches them).
\<close>

datatype exn_class =
    ConnectionError | Timeout | HTTPError | JSONDecodeError
  | AttributeError | TypeError | KeyError | ValidationError | OtherError

datatype exn = Exn (exn_cls: exn_class) (exn_str: string)

text \<open>
  The subclasses of \<open>requests.exceptions.RequestException\<close>.  (\<open>JSONDecodeError\<close> is
  one since requests 2.27; the handlers below treat both readings alike.)
\<close>

fun is_RequestException :: "exn_class \<Rightarrow> bool" where
  "is_RequestException ConnectionError = True"
| "is_RequestException Timeout = True"
| "is_RequestException HTTPError = True"
| "is_RequestException JSONDecodeError = True"
| "is_RequestException _ = False"

fun type_name :: "json \<Rightarrow> string" where
  "type_name JNull = ''NoneType''"
| "type_name (JBool _) = ''bool''"
| "type_name (JNum _) = ''int''"
| "type_name (JStr _) = ''str''"
| "type_name (JArr _) = ''list''"
| "type_name (JObj _) = ''dict''"

definition quoted :: "string \<Rightarrow> string" where
  "quoted s = [CHR 0x27] @ s @ [CHR 0x27]"

definition dict_get :: "dict \<Rightarrow> string \<Rightarrow> json \<Rightarrow> json" where
  "dict_get d k dflt = (case map_of d k of Some v \<Rightarrow> v | None \<Rightarrow> dflt)"

text \<open>\<open>v.get(k, dflt)\<close> on any value: only a dict has the method.\<close>

fun py_get :: "json \<Rightarrow> string \<Rightarrow> json \<Rightarrow> exn + json" where
  "py_get (JObj d) k dflt = Inr (dict_get d k dflt)"
| "py_get v k dflt =
     Inl (Exn AttributeError
       (quoted (type_name v) @ '' object has no attribute '' @ quoted ''get''))"

text \<open>\<open>len(v)\<close>\<close>

fun py_len :: "json \<Rightarrow> exn + nat" where
  "py_len (JStr s) = Inr (length s)"
| "py_len (JArr xs) = Inr (length xs)"
| "py_len (JObj d) = Inr (length (remdups (map fst d)))"
| "py_len v =
     Inl (Exn TypeError (''object of type '' @ quoted (type_name v) @ '' has no len()''))"

text \<open>Truth value of a JSON value, as \<open>not topic\<close> tests it.\<close>

fun truthy :: "json \<Rightarrow> bool" where
  "truthy JNull = False"
| "truthy (JBool b) = b"
| "truthy (JNum n) = (n \<noteq> 0)"
| "truthy (JStr s) = (s \<noteq> [])"
| "truthy (JArr xs) = (xs \<noteq> [])"
| "truthy (JObj d) = (d \<noteq> [])"

text \<open>\<open>v[:200]\<close>\<close>

fun py_slice200 :: "json \<Rightarrow> exn + json" where
  "py_slice200 (JStr s) = Inr (JStr (take 200 s))"
| "py_slice200 (JArr xs) = Inr (JArr (take 200 xs))"
| "py_slice200 (JObj d) = Inl (Exn TypeError (''unhashable type: '' @ quoted ''slice''))"
| "py_slice200 v =
     Inl (Exn TypeError (quoted (type_name v) @ '' object is not subscriptable''))"

section \<open>The outside world\<close>

text \<open>
  The two network calls and the library texts are parameters of the model.
  \<open>requests.get(url, params=params, timeout=10)\<close> either raises (a connection failure, a
  timeout, another \<open>RequestException\<close>) or returns a response; the response carries its
  status code, the text \<open>raise_for_status\<close> would give its \<open>HTTPError\<close>, and what
  \<open>response.json()\<close> does (raise, or return the parsed body).  An \<open>HTTPError\<close> comes from
  \<open>raise_for_status\<close> only, with the response attached that the handler of
  \<open>flask_api.py\<close> reads.
\<close>

record http_request =
  req_url :: string
  req_apikey :: string
  req_q :: string
  req_language :: string
  req_size :: nat
  req_timeout :: nat

record http_response =
  status_code :: nat
  error_text :: string
  json_result :: "exn + json"

datatype http_outcome = Raised exn | Responded http_response

text \<open>
  \<open>model.invoke(prompt)\<close> returns a message object; \<open>Message c\<close> has the attribute
  \<open>content\<close>, \<open>NoContent s\<close> is an object without it whose \<open>str()\<close> is \<open>s\<close>.
  \<open>app.py\<close> tests for the attribute; \<open>flask_api.py\<close> reads it and so raises an
  \<open>AttributeError\<close> on the second kind.
\<close>

datatype llm_response = Message string | NoContent string

text \<open>
  \<open>llm_construct\<close>: the exception \<open>ChatGoogleGenerativeAI(...)\<close> raises, if any.
  \<open>py_repr\<close>: Python's text for a number, a list or a dict inside an f-string.
  \<open>validation_text\<close>: the text of pydantic's error for a rejected \<open>articles\<close> value.
\<close>

record world =
  news_api_key :: string
  http_get :: "http_request \<Rightarrow> http_outcome"
  llm_construct :: "exn option"
  llm_invoke :: "string \<Rightarrow> exn + llm_response"
  py_repr :: "json \<Rightarrow> string"
  validation_text :: "json \<Rightarrow> string"

text \<open>\<open>response.raise_for_status()\<close>: an \<open>HTTPError\<close> for the codes 400 to 599.\<close>

definition raise_for_status :: "http_response \<Rightarrow> exn + unit" where
  "raise_for_status r =
     (if 400 \<le> status_code r \<and> status_code r < 600
      then Inl (Exn HTTPError (error_text r)) else Inr ())"

section \<open>ArticleFetcher\<close>

text \<open>The first two lines of \<open>fetch_news_articles\<close>: the query, in \<open>app.py\<close> and in \<open>flask_api.py\<close>.\<close>

definition app_query :: "string \<Rightarrow> string" where
  "app_query ints = join_str '' '' (map strip (split_on CHR '','' ints))"

definition flask_query :: "string \<Rightarrow> string" where
  "flask_query ints = join_str '' '' (take 3 (map strip (split_on CHR '','' ints)))"

definition news_request :: "world \<Rightarrow> string \<Rightarrow> http_request" where
  "news_request w query =
     \<lparr>req_url = ''https://newsdata.io/api/1/news'', req_apikey = news_api_key w,
      req_q = query, req_language = ''en'', req_size = 5, req_timeout = 10\<rparr>"

text \<open>The body of the \<open>try\<close> in \<open>app.py\<close>.\<close>

definition app_fetch_body :: "world \<Rightarrow> string \<Rightarrow> exn + json" where
  "app_fetch_body w ints =
     (case http_get w (news_request w (app_query ints)) of
        Raised e \<Rightarrow> Inl e
      | Responded r \<Rightarrow>
          (case raise_for_status r of
             Inl e \<Rightarrow> Inl e
           | Inr _ \<Rightarrow>
               (case json_result r of
                  Inl e \<Rightarrow> Inl e
                | Inr data \<Rightarrow>
                    (case py_get data ''status'' JNull of
                       Inl e \<Rightarrow> Inl e
                     | Inr st \<Rightarrow>
                         if st \<noteq> JStr ''success'' then Inr (JArr [])
                         else py_get data ''results'' (JArr [])))))"

text \<open>Both handlers of \<open>app.py\<close> log and return the empty list.\<close>

definition app_fetch_news_articles :: "world \<Rightarrow> string \<Rightarrow> exn + json" where
  "app_fetch_news_articles w ints =
     (case app_fetch_body w ints of
        Inr v \<Rightarrow> Inr v
      | Inl e \<Rightarrow>
          if is_RequestException (exn_cls e) then Inr (JArr [])
          else Inr (JArr []))"

text \<open>
  The body of the \<open>try\<close> in \<open>flask_api.py\<close>: no look at the status field, and
  \<open>len(articles)\<close> inside the logged text.
\<close>

definition flask_fetch_body :: "world \<Rightarrow> string \<Rightarrow> exn + json" where
  "flask_fetch_body w ints =
     (case http_get w (news_request w (flask_query ints)) of
        Raised e \<Rightarrow> Inl e
      | Responded r \<Rightarrow>
          (case raise_for_status r of
             Inl e \<Rightarrow> Inl e
           | Inr _ \<Rightarrow>
               (case json_result r of
                  Inl e \<Rightarrow> Inl e
                | Inr data \<Rightarrow>
                    (case py_get data ''results'' (JArr []) of
                       Inl e \<Rightarrow> Inl e
                     | Inr arts \<Rightarrow>
                         (case py_len arts of
                            Inl e \<Rightarrow> Inl e
                          | Inr _ \<Rightarrow> Inr arts)))))"

definition flask_fetch_news_articles :: "world \<Rightarrow> string \<Rightarrow> exn + json" where
  "flask_fetch_news_articles w ints =
     (case flask_fetch_body w ints of
        Inr v \<Rightarrow> Inr v
      | Inl e \<Rightarrow>
          if exn_cls e = HTTPError then Inr (JArr [])
          else if is_RequestException (exn_cls e) then Inr (JArr [])
          else Inr (JArr []))"

section \<open>ArticleRanker\<close>

text \<open>
  \<open>RankArticlesInput\<close> (\<open>app.py\<close>) and \<open>RankInput\<close> (\<open>flask_api.py\<close>): a list of dicts and a
  string.
\<close>

record RankInput =
  ri_articles :: "dict list"
  ri_interests :: string

definition newline :: string where
  "newline = [CHR 0x0A]"

text \<open>A value inside an f-string: \<open>str(v)\<close>.\<close>

fun py_str :: "world \<Rightarrow> json \<Rightarrow> string" where
  "py_str w (JStr s) = s"
| "py_str w JNull = ''None''"
| "py_str w (JBool b) = (if b then ''True'' else ''False'')"
| "py_str w v = py_repr w v"

text \<open>The first error of a generator wins; the later elements are not computed.\<close>

fun map_exn :: "('a \<Rightarrow> exn + 'b) \<Rightarrow> 'a list \<Rightarrow> exn + 'b list" where
  "map_exn f [] = Inr []"
| "map_exn f (x # xs) =
     (case f x of
        Inl e \<Rightarrow> Inl e
      | Inr y \<Rightarrow> (case map_exn f xs of Inl e \<Rightarrow> Inl e | Inr ys \<Rightarrow> Inr (y # ys)))"

subsection \<open>\<open>app.py\<close>\<close>





subsection \<open>\<open>flask_api.py\<close>\<close>

definition flask_article_text :: "world \<Rightarrow> dict \<Rightarrow> exn + string" where
  "flask_article_text w art =
     (case py_slice200 (dict_get art ''description'' (JStr [])) of
        Inl e \<Rightarrow> Inl e
      | Inr d \<Rightarrow>
          Inr (''Title: '' @ py_str w (dict_get art ''title'' (JStr ''No title'')) @ newline @
               ''Source: '' @ py_str w (dict_get art ''source_id'' (JStr ''Unknown'')) @ newline @
               ''Description: '' @ py_str w d @ ''...''))"

definition flask_prompt :: "world \<Rightarrow> RankInput \<Rightarrow> exn + string" where
  "flask_prompt w inp =
     (case map_exn (flask_article_text w) (take 5 (ri_articles inp)) of
        Inl e \<Rightarrow> Inl e
      | Inr texts \<Rightarrow>
          Inr (newline @ ''**User Interests**: '' @ ri_interests inp @ newline @
               newline @
               ''**Task**: Select the 3 most relevant articles and provide:'' @ newline @
               ''1. A concise summary'' @ newline @
               ''2. Why it might interest the user'' @ newline @
               ''3. The source'' @ newline @
               newline @
               ''**Articles**:'' @ newline @
               join_str (newline @ newline) texts @ newline @
               newline @
               ''**Format as markdown**''))"

definition flask_rank_body :: "world \<Rightarrow> RankInput \<Rightarrow> (exn + string) \<times> string list" where
  "flask_rank_body w inp =
     (if ri_articles inp = []
      then (Inr ''No articles found matching your interests.'', [])
      else
        (case llm_construct w of
           Some e \<Rightarrow> (Inl e, [])
         | None \<Rightarrow>
             (case flask_prompt w inp of
                Inl e \<Rightarrow> (Inl e, [])
              | Inr prompt \<Rightarrow>
                  (case llm_invoke w prompt of
                     Inl e \<Rightarrow> (Inl e, [prompt])
                   | Inr (Message c) \<Rightarrow> (Inr c, [prompt])
                   | Inr (NoContent s) \<Rightarrow>
                       (Inl (Exn AttributeError
                          (''object has no attribute '' @ quoted ''content'')), [prompt])))))"

definition failed_due_to :: "exn \<Rightarrow> string" where
  "failed_due_to e = ''Failed to generate recommendations due to: '' @ exn_str e"

definition flask_rank_articles :: "world \<Rightarrow> RankInput \<Rightarrow> (exn + string) \<times> string list" where
  "flask_rank_articles w inp =
     (case flask_rank_body w inp of
        (Inr s, calls) \<Rightarrow> (Inr s, calls)
      | (Inl e, calls) \<Rightarrow> (Inr (failed_due_to e), calls))"

section \<open>Pipeline\<close>

text \<open>
  \<open>AgentState\<close>: a dict with three optional keys; \<open>None\<close> is an absent key.  A node returns
  a dict of the keys it writes, of the same shape, and the graph stores each key of it
  over the state's.
\<close>

record AgentState =
  interests :: "string option"
  articles :: "json option"
  recommendations :: "string option"



definition key_error :: "string \<Rightarrow> exn" where
  "key_error k = Exn KeyError (quoted k)"




text \<open>
  The constructor of the input object accepts a list of dicts for \<open>articles\<close> and raises
  a validation error for anything else.
\<close>

fun the_dicts :: "json list \<Rightarrow> dict list option" where
  "the_dicts [] = Some []"
| "the_dicts (JObj d # vs) = (case the_dicts vs of Some ds \<Rightarrow> Some (d # ds) | None \<Rightarrow> None)"
| "the_dicts (_ # vs) = None"

definition make_rank_input :: "world \<Rightarrow> json \<Rightarrow> string \<Rightarrow> exn + RankInput" where
  "make_rank_input w arts ints =
     (case arts of
        JArr vs \<Rightarrow>
          (case the_dicts vs of
             Some ds \<Rightarrow> Inr \<lparr>ri_articles = ds, ri_interests = ints\<rparr>
           | None \<Rightarrow> Inl (Exn ValidationError (validation_text w arts)))
      | _ \<Rightarrow> Inl (Exn ValidationError (validation_text w arts)))"

definition rank_node_body ::
  "(RankInput \<Rightarrow> (exn + string) \<times> string list) \<Rightarrow> world \<Rightarrow> AgentState \<Rightarrow> exn + AgentState"
where
  "rank_node_body rank w st =
     (case articles st of
        None \<Rightarrow> Inl (key_error ''articles'')
      | Some arts \<Rightarrow>
          (case interests st of
             None \<Rightarrow> Inl (key_error ''interests'')
           | Some ints \<Rightarrow>
               (case make_rank_input w arts ints of
                  Inl e \<Rightarrow> Inl e
                | Inr inp \<Rightarrow>
                    (case fst (rank inp) of
                       Inl e \<Rightarrow> Inl e
                     | Inr ranked \<Rightarrow>
                         Inr \<lparr>interests = None, articles = None,
                              recommendations = Some ranked\<rparr>))))"


text \<open>\<open>flask_api.py\<close>: the node catches every exception of its body.\<close>

definition flask_rank_node :: "world \<Rightarrow> AgentState \<Rightarrow> exn + AgentState" where
  "flask_rank_node w st =
     (case rank_node_body (flask_rank_articles w) w st of
        Inr u \<Rightarrow> Inr u
      | Inl e \<Rightarrow>
          Inr \<lparr>interests = None, articles = None,
               recommendations = Some (failed_due_to e)\<rparr>)"




section \<open>The \<open>/recommend\<close> route\<close>

text \<open>
  The handler gets what \<open>request.get_json()\<close> does (it raises for a body that is not JSON
  or a wrong content type, or returns the parsed value) and the graph, called on the
  topic as \<open>app_graph.invoke({"interests": topic})\<close>.  It returns the response and the
  topics the graph was invoked with.
\<close>

record flask_response =
  resp_status :: nat
  resp_body :: dict

definition recommend_body ::
  "(json \<Rightarrow> exn + AgentState) \<Rightarrow> exn + json \<Rightarrow> (exn + flask_response) \<times> json list"
where
  "recommend_body graph get_json =
     (case get_json of
        Inl e \<Rightarrow> (Inl e, [])
      | Inr data \<Rightarrow>
          (case py_get data ''topic'' JNull of
             Inl e \<Rightarrow> (Inl e, [])
           | Inr topic \<Rightarrow>
               if \<not> truthy topic
               then (Inr \<lparr>resp_status = 400,
                          resp_body = [(''error'', JStr ''Missing required field: topic'')]\<rparr>, [])
               else
                 (case graph topic of
                    Inl e \<Rightarrow> (Inl e, [topic])
                  | Inr result \<Rightarrow>
                      (Inr \<lparr>resp_status = 200,
                            resp_body =
                              [(''recommendations'',
                                (case recommendations result of
                                   Some r \<Rightarrow> JStr r
                                 | None \<Rightarrow> JStr ''No recommendations available''))]\<rparr>,
                       [topic]))))"

definition recommend ::
  "(json \<Rightarrow> exn + AgentState) \<Rightarrow> exn + json \<Rightarrow> flask_response \<times> json list"
where
  "recommend graph get_json =
     (case recommend_body graph get_json of
        (Inr resp, calls) \<Rightarrow> (resp, calls)
      | (Inl e, calls) \<Rightarrow>
          (\<lparr>resp_status = 500, resp_body = [(''error'', JStr (exn_str e))]\<rparr>, calls))"

text \<open>Whether \<open>request.get_json()\<close> returned a JSON object.\<close>

fun is_object :: "exn + json \<Rightarrow> bool" where
  "is_object (Inr (JObj d)) = True"
| "is_object _ = False"

section \<open>Example inputs\<close>

text \<open>
  A world in which the news service cannot be reached and the model call fails, and a
  response with status 200 whose body reports an error and still carries results.
\<close>

definition example_world :: world where
  "example_world =
     \<lparr>news_api_key = ''key'',
      http_get = (\<lambda>_. Raised (Exn ConnectionError ''connection refused'')),
      llm_construct = None,
      llm_invoke = (\<lambda>_. Inl (Exn OtherError ''quota exceeded'')),
      py_repr = (\<lambda>_. ''?''),
      validation_text = (\<lambda>_. ''validation error for RankInput'')\<rparr>"

definition soft_failure_response :: http_response where
  "soft_failure_response =
     \<lparr>status_code = 200, error_text = [],
      json_result = Inr (JObj [(''status'', JStr ''error''),
                               (''results'', JArr [JObj [(''title'', JStr ''t'')]])])\<rparr>"

text \<open>A stand-in for the graph, for the runs in which it must not be called.\<close>

definition pipeline_stub :: "json \<Rightarrow> exn + AgentState" where
  "pipeline_stub topic =
     Inr \<lparr>interests = None, articles = None, recommendations = Some ''stub''\<rparr>"

section \<open>Properties of the string operations\<close>

subsection \<open>Lower case\<close>

lemma not_upper_lower_char: "\<not> is_upper (lower_char c)"
proof (cases "is_upper c")
  case False
  then show ?thesis by (simp add: lower_char_def)
next
  case True
  define n where "n = (of_char c :: nat)"
  have n: "(65 \<le> n \<and> n \<le> 90) \<or> (192 \<le> n \<and> n \<le> 222 \<and> n \<noteq> 215)"
    using True by (simp add: is_upper_def n_def Let_def)
  then have "n + 32 < 256" by arith
  then have "of_char (char_of (n + 32)) = n + 32"
    by simp
  moreover have "\<not> ((65 \<le> n + 32 \<and> n + 32 \<le> 90) \<or> (192 \<le> n + 32 \<and> n + 32 \<le> 222 \<and> n + 32 \<noteq> 215))"
    using n by arith
  ultimately have "\<not> is_upper (char_of (n + 32))"
    unfolding is_upper_def Let_def by metis
  with True show ?thesis
    by (simp add: lower_char_def n_def)
qed

lemma lower_char_id: "\<not> is_upper c \<Longrightarrow> lower_char c = c"
  by (simp add: lower_char_def)

lemma lower_id: "\<forall>c\<in>set s. \<not> is_upper c \<Longrightarrow> lower s = s"
  by (induction s) (simp_all add: lower_def lower_char_id)

lemma lower_no_upper: "c \<in> set (lower s) \<Longrightarrow> \<not> is_upper c"
  by (auto simp: lower_def not_upper_lower_char)

lemma lower_lower: "lower (lower s) = lower s"
  by (rule lower_id) (simp add: lower_no_upper)

lemma split_on_not_Nil: "split_on c s \<noteq> []"
  by (induction s) (simp_all split: list.splits)

lemma split_on_no_sep: "p \<in> set (split_on c s) \<Longrightarrow> c \<notin> set p"
proof (induction s arbitrary: p)
  case Nil
  then show ?case by simp
next
  case (Cons a s)
  obtain q qs where q: "split_on c s = q # qs"
    using split_on_not_Nil [of c s] by (cases "split_on c s") auto
  with Cons show ?case by (auto split: if_splits)
qed

lemma split_on_single: "c \<notin> set a \<Longrightarrow> split_on c a = [a]"
  by (induction a) auto

lemma split_on_append_sep: "c \<notin> set a \<Longrightarrow> split_on c (a @ c # b) = a # split_on c b"
  by (induction a) auto

lemma split_on_hd_prefix: "prefix (hd (split_on c s)) s"
  by (induction s) (auto split: list.splits)

lemma split_on_sublist: "p \<in> set (split_on c s) \<Longrightarrow> sublist p s"
proof (induction s arbitrary: p)
  case Nil
  then show ?case by simp
next
  case (Cons a s)
  obtain q qs where q: "split_on c s = q # qs"
    using split_on_not_Nil [of c s] by (cases "split_on c s") auto
  have pq: "prefix q s"
    using q split_on_hd_prefix [of c s] by simp
  show ?case
  proof (cases "a = c")
    case True
    with Cons show ?thesis by (auto simp: sublist_Cons_right)
  next
    case False
    with Cons.prems q have "p = a # q \<or> p \<in> set qs" by auto
    then show ?thesis
    proof
      assume "p = a # q"
      with pq show ?thesis by simp
    next
      assume "p \<in> set qs"
      with q Cons.IH [of p] show ?thesis by (simp add: sublist_Cons_right)
    qed
  qed
qed

subsection \<open>strip\<close>

lemma strip_Nil: "strip [] = []"
  by (simp add: strip_def)

lemma strip_leading_space: "is_space c \<Longrightarrow> strip (c # s) = strip s"
  by (simp add: strip_def)

lemma set_strip: "set (strip s) \<subseteq> set s"
proof -
  have "set (strip s) \<subseteq> set (dropWhile is_space s)"
    unfolding strip_def using set_dropWhileD by fastforce
  also have "\<dots> \<subseteq> set s"
    using set_dropWhileD by fastforce
  finally show ?thesis .
qed

lemma strip_sublist: "sublist (strip s) s"
proof -
  have "prefix (strip s) (dropWhile is_space s)"
  proof -
    have "suffix (dropWhile is_space (rev (dropWhile is_space s))) (rev (dropWhile is_space s))"
      by (rule suffix_dropWhile)
    then have "prefix (rev (dropWhile is_space (rev (dropWhile is_space s)))) (rev (rev (dropWhile is_space s)))"
      using suffix_to_prefix by blast
    then show ?thesis by (simp add: strip_def)
  qed
  moreover have "suffix (dropWhile is_space s) s"
    by (rule suffix_dropWhile)
  ultimately show ?thesis
    unfolding sublist_altdef' by blast
qed

lemma strip_fixed_iff:
  "strip s = s \<longleftrightarrow> (s = [] \<or> (\<not> is_space (hd s) \<and> \<not> is_space (last s)))"
proof (cases "s = []")
  case True
  then show ?thesis by (simp add: strip_def)
next
  case False
  show ?thesis
  proof
    assume eq: "strip s = s"
    have h: "\<not> is_space (hd s)"
    proof
      assume "is_space (hd s)"
      with False have "length (dropWhile is_space s) < length s"
        by (cases s) (auto simp: le_imp_less_Suc length_dropWhile_le)
      moreover have "length (strip s) \<le> length (dropWhile is_space s)"
        using length_dropWhile_le [of is_space "rev (dropWhile is_space s)"]
        by (simp add: strip_def)
      ultimately show False using eq by simp
    qed
    have l: "\<not> is_space (last s)"
    proof
      assume sp: "is_space (last s)"
      from h False have d: "dropWhile is_space s = s" by (cases s) auto
      from False sp have "is_space (hd (rev s))" by (simp add: hd_rev)
      with False have "length (dropWhile is_space (rev s)) < length (rev s)"
        by (cases "rev s") (auto simp: le_imp_less_Suc length_dropWhile_le)
      then have "length (strip s) < length s" by (simp add: strip_def d)
      with eq show False by simp
    qed
    from h l show "s = [] \<or> (\<not> is_space (hd s) \<and> \<not> is_space (last s))" by simp
  next
    assume "s = [] \<or> (\<not> is_space (hd s) \<and> \<not> is_space (last s))"
    with False have h: "\<not> is_space (hd s)" and l: "\<not> is_space (last s)" by auto
    from h False have d: "dropWhile is_space s = s" by (cases s) auto
    from l False have "\<not> is_space (hd (rev s))" by (simp add: hd_rev)
    with False have "dropWhile is_space (rev s) = rev s" by (cases "rev s") auto
    with d show "strip s = s" by (simp add: strip_def)
  qed
qed

lemma strip_strip: "strip (strip s) = strip s"
proof (cases "strip s = []")
  case True
  then show ?thesis by (simp add: strip_Nil)
next
  case False
  define d where "d = dropWhile is_space s"
  define e where "e = dropWhile is_space (rev d)"
  have se: "strip s = rev e" by (simp add: strip_def d_def e_def)
  with False have ne: "e \<noteq> []" by simp
  then have he: "\<not> is_space (hd e)"
    unfolding e_def using hd_dropWhile by blast
  from ne have "d \<noteq> []" by (auto simp: e_def)
  then have hd: "\<not> is_space (hd d)"
    unfolding d_def using hd_dropWhile by blast
  have "suffix e (rev d)" unfolding e_def by (rule suffix_dropWhile)
  then obtain p where p: "rev d = p @ e" by (auto simp: suffix_def)
  then have "d = rev e @ rev p" by (metis rev_append rev_rev_ident)
  with ne have "hd d = hd (rev e)" by simp
  with hd have "\<not> is_space (hd (rev e))" by simp
  moreover from he ne have "\<not> is_space (last (rev e))" by (simp add: last_rev)
  ultimately show ?thesis
    using strip_fixed_iff [of "rev e"] se by simp
qed

lemma strip_ends:
  "strip s \<noteq> [] \<Longrightarrow> \<not> is_space (hd (strip s)) \<and> \<not> is_space (last (strip s))"
  using strip_strip [of s] strip_fixed_iff [of "strip s"] by simp

subsection \<open>join and split\<close>

lemma split_on_join:
  "ks \<noteq> [] \<Longrightarrow> \<forall>k\<in>set ks. c \<notin> set k \<Longrightarrow>
   split_on c (join_str (c # sep) ks) = hd ks # map (\<lambda>k. sep @ k) (tl ks)"
  if "c \<notin> set sep"
proof (induction "c # sep" ks rule: join_str.induct)
  case 1
  then show ?case by simp
next
  case (2 x)
  then show ?case by (simp add: split_on_single)
next
  case (3 x y ys)
  then have IH: "split_on c (join_str (c # sep) (y # ys)) = y # map (\<lambda>k. sep @ k) ys"
    by simp
  have "join_str (c # sep) (x # y # ys) = x @ c # (sep @ join_str (c # sep) (y # ys))"
    by simp
  moreover have "c \<notin> set x" using 3 by simp
  ultimately have "split_on c (join_str (c # sep) (x # y # ys))
      = x # split_on c (sep @ join_str (c # sep) (y # ys))"
    using split_on_append_sep [of c x "sep @ join_str (c # sep) (y # ys)"] by simp
  moreover have "split_on c (sep @ t) = (sep @ hd (split_on c t)) # tl (split_on c t)" for t
    using that by (induction sep) (auto simp: split_on_not_Nil split: list.splits)
  ultimately show ?case using IH by simp
qed

subsection \<open>replace\<close>

lemma str_replace_absent: "\<not> sublist old s \<Longrightarrow> str_replace old new s = s"
proof (induction s)
  case Nil
  then show ?case by simp
next
  case (Cons c cs)
  then have "\<not> prefix old (c # cs)" and "\<not> sublist old cs"
    by (auto simp: sublist_Cons_right)
  with Cons.IH show ?case by simp
qed

lemma set_str_replace: "set (str_replace old new s) \<subseteq> set s \<union> set new"
proof (induction old new s rule: str_replace.induct)
  case (1 old new)
  then show ?case by simp
next
  case (2 old new c cs)
  show ?case
  proof (cases "old \<noteq> [] \<and> prefix old (c # cs)")
    case True
    with 2 have "set (str_replace old new (drop (length old) (c # cs)))
        \<subseteq> set (drop (length old) (c # cs)) \<union> set new"
      by simp
    moreover have "set (drop (length old) (c # cs)) \<subseteq> set (c # cs)"
      by (rule set_drop_subset)
    ultimately show ?thesis using True by auto
  next
    case False
    with 2 show ?thesis by auto
  qed
qed

text \<open>A character of the result that is not the comma was copied from the input.\<close>

lemma and_replace_Cons:
  "str_replace ''and'' '','' s = x # xs \<Longrightarrow> x \<noteq> CHR '',''
   \<Longrightarrow> \<exists>ys. s = x # ys \<and> xs = str_replace ''and'' '','' ys \<and> \<not> prefix ''and'' s"
  by (cases s) (auto split: if_splits)

lemma and_replace_no_and: "\<not> sublist ''and'' (str_replace ''and'' '','' s)"
proof (induction s rule: length_induct)
  case (1 s)
  let ?R = "str_replace ''and'' '',''"
  show ?case
  proof (cases s)
    case Nil
    then show ?thesis by simp
  next
    case (Cons c cs)
    show ?thesis
    proof (cases "prefix ''and'' s")
      case True
      then obtain t where t: "s = ''and'' @ t" by (auto simp: prefix_def)
      then have "?R s = CHR '','' # ?R t" by simp
      moreover from t 1 have "\<not> sublist ''and'' (?R t)" by simp
      ultimately show ?thesis by (simp add: sublist_Cons_right)
    next
      case False
      with Cons have np: "\<not> prefix ''and'' (c # cs)" by simp
      have eq: "?R s = c # ?R cs"
        unfolding Cons using np
        by (subst str_replace.simps(2)) (simp only: simp_thms if_False)
      from Cons 1 have IH: "\<not> sublist ''and'' (?R cs)" by simp
      have "\<not> prefix ''and'' (c # ?R cs)"
      proof
        assume "prefix ''and'' (c # ?R cs)"
        then obtain r where c: "c = CHR ''a''" and r: "?R cs = CHR ''n'' # CHR ''d'' # r"
          by (auto simp: prefix_def)
        from and_replace_Cons [OF r] obtain ys
          where ys: "cs = CHR ''n'' # ys" "CHR ''d'' # r = ?R ys" by auto
        from and_replace_Cons [OF ys(2) [symmetric]] obtain zs
          where "ys = CHR ''d'' # zs" by auto
        with ys c Cons have "prefix ''and'' s" by simp
        with False show False by simp
      qed
      with IH eq show ?thesis by (simp add: sublist_Cons_right)
    qed
  qed
qed

subsection \<open>Words inside a joined list\<close>

lemma sublist_no_sep:
  "sublist w (a @ c # b) \<Longrightarrow> c \<notin> set w \<Longrightarrow> sublist w a \<or> sublist w b"
proof (induction a)
  case Nil
  then show ?case
    by (cases w) (auto simp: sublist_Cons_right)
next
  case (Cons x a)
  from Cons.prems(1) have "prefix w (x # a @ c # b) \<or> sublist w (a @ c # b)"
    by (simp add: sublist_Cons_right)
  then show ?case
  proof
    assume "prefix w (x # a @ c # b)"
    then have "prefix w ((x # a) @ c # b)" by simp
    then have "prefix w (x # a) \<or> (\<exists>us. w = (x # a) @ us \<and> prefix us (c # b))"
      by (simp only: prefix_append)
    then show ?thesis
    proof
      assume "prefix w (x # a)"
      then show ?thesis by (simp add: prefix_imp_sublist)
    next
      assume "\<exists>us. w = (x # a) @ us \<and> prefix us (c # b)"
      then obtain us where us: "w = (x # a) @ us" "prefix us (c # b)" by blast
      with Cons.prems(2) have "us = []" by (cases us) auto
      with us show ?thesis by simp
    qed
  next
    assume "sublist w (a @ c # b)"
    with Cons show ?thesis by (auto simp: sublist_Cons_right)
  qed
qed

lemma sublist_join:
  assumes "sublist w (join_str '', '' ks)" and "w \<noteq> []"
    and "CHR '','' \<notin> set w" and "hd w \<noteq> CHR '' ''"
  shows "\<exists>k\<in>set ks. sublist w k"
  using assms(1)
proof (induction "'', ''" ks rule: join_str.induct)
  case 1
  with assms(2) show ?case by simp
next
  case (2 x)
  then show ?case by simp
next
  case (3 x y ys)
  let ?r = "join_str '', '' (y # ys)"
  from 3(2) have "sublist w (x @ CHR '','' # (CHR '' '' # ?r))" by simp
  with assms(3) have "sublist w x \<or> sublist w (CHR '' '' # ?r)"
    using sublist_no_sep [of w x "CHR '',''" "CHR '' '' # ?r"] by blast
  then show ?case
  proof
    assume "sublist w x"
    then show ?thesis by auto
  next
    assume "sublist w (CHR '' '' # ?r)"
    then have "prefix w (CHR '' '' # ?r) \<or> sublist w ?r"
      by (simp add: sublist_Cons_right)
    moreover have "\<not> prefix w (CHR '' '' # ?r)"
      using assms(2,4) by (cases w) auto
    ultimately have "sublist w ?r" by simp
    with 3(1) show ?thesis by auto
  qed
qed

lemma set_join_str: "set (join_str sep ks) \<subseteq> set sep \<union> \<Union> (set ` set ks)"
  by (induction sep ks rule: join_str.induct) auto

lemma sublist_join_member: "k \<in> set ks \<Longrightarrow> sublist k (join_str sep ks)"
proof (induction sep ks rule: join_str.induct)
  case (1 sep)
  then show ?case by simp
next
  case (2 sep x)
  then show ?case by simp
next
  case (3 sep x y ys)
  show ?case
  proof (cases "k = x")
    case True
    then show ?thesis by simp
  next
    case False
    with 3 have "sublist k (join_str sep (y # ys))" by simp
    from sublist_order.order.trans [OF this sublist_append_leftI [of _ "x @ sep"]]
    show ?thesis by simp
  qed
qed

lemma not_upper_sep: "\<not> is_upper CHR '',''" "\<not> is_upper CHR '' ''"
  by (simp_all add: is_upper_def)

lemma keywords_of_props:
  assumes "k \<in> set (keywords_of s)"
  shows "k \<noteq> []" and "CHR '','' \<notin> set k" and "strip k = k"
    and "\<forall>c\<in>set k. \<not> is_upper c" and "\<not> sublist ''and'' k"
proof -
  from assms obtain p where p: "p \<in> set (split_on CHR '','' (clean_input s))"
    and k: "k = strip p" and ne: "strip p \<noteq> []"
    by (auto simp: keywords_of_def)
  from ne k show "k \<noteq> []" by simp
  from p have np: "CHR '','' \<notin> set p" by (rule split_on_no_sep)
  with set_strip [of p] k show "CHR '','' \<notin> set k" by auto
  from k show "strip k = k" by (simp add: strip_strip)
  have "set (clean_input s) \<subseteq> set (lower s) \<union> {CHR '',''}"
    using set_str_replace [of "''and''" "'',''" "str_replace phrase [] (lower s)"]
      set_str_replace [of phrase "[]" "lower s"]
    by (auto simp: clean_input_def)
  moreover have "set p \<subseteq> set (clean_input s)"
    using split_on_sublist [OF p] by (rule set_mono_sublist)
  ultimately have "set k \<subseteq> set (lower s) \<union> {CHR '',''}"
    using set_strip [of p] k by blast
  then show "\<forall>c\<in>set k. \<not> is_upper c"
    using lower_no_upper not_upper_sep(1) by auto
  have kc: "sublist k (clean_input s)"
    using sublist_order.order.trans [OF strip_sublist [of p] split_on_sublist [OF p]] k
    by simp
  have na: "\<not> sublist ''and'' (clean_input s)"
    unfolding clean_input_def by (rule and_replace_no_and)
  show "\<not> sublist ''and'' k"
  proof
    assume "sublist ''and'' k"
    from sublist_order.order.trans [OF this kc] na show False by simp
  qed
qed

lemma strip_space_Cons: "strip (CHR '' '' # x) = strip x"
  by (rule strip_leading_space) (simp add: is_space_def)

lemma strip_spaced_keywords:
  "\<forall>x\<in>set xs. strip x = x \<and> x \<noteq> [] \<Longrightarrow>
   map strip (filter (\<lambda>kw. strip kw \<noteq> []) (map (\<lambda>k. CHR '' '' # k) xs)) = xs"
  by (induction xs) (simp_all add: strip_space_Cons)

lemma phrase_shape: "phrase \<noteq> []" "CHR '','' \<notin> set phrase" "hd phrase \<noteq> CHR '' ''"
  by (simp_all add: phrase_def)

lemma interests_of_empty: "get_user_interests [] = []"
  by (simp add: get_user_interests_def keywords_of_def clean_input_def lower_def strip_def)

lemma interests_of_clean:
  assumes "\<forall>k\<in>set ks. clean_keyword k"
  shows "get_user_interests (join_str '', '' ks) = join_str '', '' ks"
proof (cases ks)
  case Nil
  then show ?thesis by (simp add: interests_of_empty)
next
  case (Cons k ks')
  let ?o = "join_str '', '' ks"
  from assms have props: "\<forall>x\<in>set ks. strip x = x \<and> x \<noteq> []"
    and nocomma: "\<forall>x\<in>set ks. CHR '','' \<notin> set x"
    and noupper: "\<forall>x\<in>set ks. \<forall>c\<in>set x. \<not> is_upper c"
    and noand: "\<forall>x\<in>set ks. \<not> sublist ''and'' x"
    and nophrase: "\<forall>x\<in>set ks. \<not> sublist phrase x"
    by (simp_all add: clean_keyword_def list_all_iff)
  have "\<forall>c\<in>set ?o. \<not> is_upper c"
  proof
    fix c assume "c \<in> set ?o"
    with set_join_str [of "'', ''" ks] have "c \<in> set '', '' \<or> (\<exists>x\<in>set ks. c \<in> set x)"
      by blast
    then show "\<not> is_upper c"
      using noupper not_upper_sep by auto
  qed
  then have lo: "lower ?o = ?o" by (rule lower_id)
  have "\<not> sublist phrase ?o"
  proof
    assume "sublist phrase ?o"
    then have "\<exists>x\<in>set ks. sublist phrase x"
      using phrase_shape by (rule sublist_join)
    with nophrase show False by blast
  qed
  then have ph: "str_replace phrase [] ?o = ?o" by (rule str_replace_absent)
  have "\<not> sublist ''and'' ?o"
  proof
    assume "sublist ''and'' ?o"
    then have "\<exists>x\<in>set ks. sublist ''and'' x"
      by (rule sublist_join) simp_all
    with noand show False by blast
  qed
  then have "str_replace ''and'' '','' ?o = ?o" by (rule str_replace_absent)
  with lo ph have ci: "clean_input ?o = ?o" by (simp only: clean_input_def)
  have ne: "ks \<noteq> []" using Cons by simp
  have "CHR '','' \<notin> set '' ''" by simp
  from split_on_join [OF this ne nocomma]
  have "split_on CHR '','' ?o = hd ks # map (\<lambda>k. '' '' @ k) (tl ks)" .
  then have sp: "split_on CHR '','' ?o = k # map (\<lambda>k. CHR '' '' # k) ks'"
    using Cons by simp
  from props Cons have pk: "strip k = k" "k \<noteq> []"
    and pks: "\<forall>x\<in>set ks'. strip x = x \<and> x \<noteq> []" by simp_all
  have "keywords_of ?o = k # ks'"
    unfolding keywords_of_def ci sp
    using pk strip_spaced_keywords [OF pks] by simp
  then show ?thesis using Cons by (simp only: get_user_interests_def)
qed

lemma keywords_split_back:
  assumes "\<forall>k\<in>set ks. CHR '','' \<notin> set k \<and> strip k = k"
  shows "join_str '' '' (map strip (split_on CHR '','' (join_str '', '' ks))) = join_str '' '' ks"
    and "join_str '' '' (take 3 (map strip (split_on CHR '','' (join_str '', '' ks))))
         = join_str '' '' (take 3 ks)"
proof -
  have "map strip (split_on CHR '','' (join_str '', '' ks)) = (if ks = [] then [[]] else ks)"
  proof (cases ks)
    case Nil
    then show ?thesis by (simp add: strip_Nil)
  next
    case (Cons k ks')
    have ne: "ks \<noteq> []" using Cons by simp
    have nc: "\<forall>k\<in>set ks. CHR '','' \<notin> set k" using assms by simp
    have "CHR '','' \<notin> set '' ''" by simp
    from split_on_join [OF this ne nc]
    have "split_on CHR '','' (join_str '', '' ks) = k # map (\<lambda>k. CHR '' '' # k) ks'"
      using Cons by simp
    moreover have "map strip (map (\<lambda>k. CHR '' '' # k) ks') = ks'"
      using assms Cons by (simp add: strip_space_Cons map_idI)
    moreover have "strip k = k" using assms Cons by simp
    ultimately show ?thesis using Cons by simp
  qed
  then show "join_str '' '' (map strip (split_on CHR '','' (join_str '', '' ks))) = join_str '' '' ks"
    and "join_str '' '' (take 3 (map strip (split_on CHR '','' (join_str '', '' ks))))
         = join_str '' '' (take 3 ks)"
    by (simp_all split: if_splits)
qed

lemma query_of_extracted:
  "app_query (get_user_interests s) = join_str '' '' (keywords_of s)"
  "flask_query (get_user_interests s) = join_str '' '' (take 3 (keywords_of s))"
  unfolding app_query_def flask_query_def get_user_interests_def
  using keywords_of_props(2,3) [of _ s]
  by (simp_all add: keywords_split_back)

subsection \<open>C8: the search query\<close>

text \<open>
  Claim C8.  The fetcher splits the comma-joined keyword string back into its keywords
  and joins them with single spaces: for every list of keywords without commas and
  without surrounding whitespace, joined with ", ", the query of \<open>app.py\<close> is all of them
  joined with spaces, and the query of \<open>flask_api.py\<close> is the first three of them joined
  with spaces; it is the parameter \<open>q\<close> of the request.
\<close>

theorem C8_query:
  "(\<forall>k\<in>set ks. CHR '','' \<notin> set k \<and> strip k = k) \<Longrightarrow>
     app_query (join_str '', '' ks) = join_str '' '' ks \<and>
     flask_query (join_str '', '' ks) = join_str '' '' (take 3 ks) \<and>
     req_q (news_request w (app_query (join_str '', '' ks))) = join_str '' '' ks \<and>
     req_q (news_request w (flask_query (join_str '', '' ks))) = join_str '' '' (take 3 ks)"
  unfolding app_query_def flask_query_def news_request_def
  by (simp add: keywords_split_back)

text \<open>Four keywords: \<open>app.py\<close> keeps all of them, \<open>flask_api.py\<close> the first three.\<close>

theorem C8_query_witness:
  "app_query ''ai, space, cars, food'' = ''ai space cars food'' \<and>
   flask_query ''ai, space, cars, food'' = ''ai space cars''"
  using C8_query [of "[''ai'', ''space'', ''cars'', ''food'']"]
  by (simp add: strip_def is_space_def)

lemma char_of_eqI: "of_char c = (n::nat) \<Longrightarrow> char_of n = c"
  by auto

lemma lower_char_upper:
  "is_upper c \<Longrightarrow> of_char d = (of_char c + 32 :: nat) \<Longrightarrow> lower_char c = d"
  by (simp add: lower_char_def char_of_eqI)

lemma lower_char_AIMN:
  "lower_char CHR ''A'' = CHR ''a''" "lower_char CHR ''I'' = CHR ''i''"
  "lower_char CHR ''M'' = CHR ''m''" "lower_char CHR ''N'' = CHR ''n''"
  by (rule lower_char_upper; simp add: is_upper_def)+

lemmas interests_eval =
  get_user_interests_def keywords_of_def clean_input_def phrase_def lower_def
  lower_char_AIMN lower_char_id is_upper_def strip_def is_space_def

lemma clean_input_lower: "clean_input (lower s) = clean_input s"
  by (simp add: clean_input_def lower_lower)

lemma interests_android: "get_user_interests ''android phones'' = ''roid phones''"
  by (simp add: interests_eval)

lemma interests_upper_phrase: "get_user_interests ''I'M Interested IN AI'' = ''ai''"
  by (simp add: interests_eval)

subsection \<open>C4: the extraction algorithm\<close>

text \<open>
  Claim C4.  For every input, \<open>get_user_interests\<close> is the pipeline of the
  specification: lower-case, remove the phrase "i'm interested in", replace "and" by a
  comma, split on commas, trim, drop the empty pieces, rejoin with ", ".  Lower-casing
  comes first, so the case of the input does not matter; after the replacement no
  "and" is left in the text that is split; and "android phones" loses its "and".
\<close>

theorem C4_extractor:
  "get_user_interests s = interest_extractor_spec s \<and>
   get_user_interests (lower s) = get_user_interests s \<and>
   \<not> sublist ''and'' (clean_input s) \<and>
   get_user_interests ''I'M Interested IN AI'' = ''ai'' \<and>
   get_user_interests ''android phones'' = ''roid phones''"
proof -
  have "map strip (filter (\<lambda>kw. strip kw \<noteq> []) ps) = filter (\<lambda>p. p \<noteq> []) (map strip ps)"
    for ps
    by (induction ps) simp_all
  then have "get_user_interests s = interest_extractor_spec s"
    by (simp add: get_user_interests_def keywords_of_def clean_input_def phrase_def
        interest_extractor_spec_def Let_def)
  moreover have "get_user_interests (lower s) = get_user_interests s"
    by (simp add: get_user_interests_def keywords_of_def clean_input_lower)
  moreover have "\<not> sublist ''and'' (clean_input s)"
    unfolding clean_input_def by (rule and_replace_no_and)
  ultimately show ?thesis
    using interests_android interests_upper_phrase by simp
qed

subsection \<open>C9: the result is in normal form\<close>



subsection \<open>C6: idempotence\<close>

text \<open>
  Removing the phrase can bring its two halves together: the result for the first input
  below is the phrase itself, and extracting again removes it.  So a result of
  \<open>get_user_interests\<close> need not be a fixed point.
\<close>

theorem C6_counterexample:
  "get_user_interests ''i'm ii'm interested innterested in'' = ''i'm interested in'' \<and>
   get_user_interests ''i'm interested in'' \<noteq> ''i'm interested in''"
  by (simp add: interests_eval)

text \<open>
  Claim C6, amended.  \<open>get_user_interests\<close> returns unchanged every ", "-join of clean
  keywords (nonempty, no comma, trimmed, lower-case, holding neither "and" nor the
  phrase "i'm interested in"), and in particular every result of its own that does not
  hold the phrase.
\<close>

theorem C6_idempotent_clean:
  "((\<forall>k\<in>set ks. clean_keyword k) \<longrightarrow>
      get_user_interests (join_str '', '' ks) = join_str '', '' ks) \<and>
   (\<not> sublist phrase (get_user_interests s) \<longrightarrow>
      get_user_interests (get_user_interests s) = get_user_interests s)"
proof (intro conjI impI)
  assume "\<forall>k\<in>set ks. clean_keyword k"
  then show "get_user_interests (join_str '', '' ks) = join_str '', '' ks"
    by (rule interests_of_clean)
next
  assume np: "\<not> sublist phrase (get_user_interests s)"
  have "\<forall>k\<in>set (keywords_of s). clean_keyword k"
  proof
    fix k assume k: "k \<in> set (keywords_of s)"
    have "\<not> sublist phrase k"
    proof
      assume "sublist phrase k"
      from sublist_order.order.trans [OF this sublist_join_member [OF k, of "'', ''"]] np
      show False by (simp add: get_user_interests_def)
    qed
    with keywords_of_props [OF k] show "clean_keyword k"
      by (simp add: clean_keyword_def list_all_iff)
  qed
  then have "get_user_interests (join_str '', '' (keywords_of s)) = join_str '', '' (keywords_of s)"
    by (rule interests_of_clean)
  then show "get_user_interests (get_user_interests s) = get_user_interests s"
    by (simp add: get_user_interests_def)
qed

text \<open>Two clean keywords, and the result for "ai".\<close>

theorem C6_idempotent_clean_witness:
  "clean_keyword ''ai'' \<and> clean_keyword ''mars'' \<and>
   get_user_interests ''ai, mars'' = ''ai, mars'' \<and>
   \<not> sublist phrase (get_user_interests ''ai'') \<and>
   get_user_interests (get_user_interests ''ai'') = get_user_interests ''ai''"
proof -
  have c: "clean_keyword ''ai''" "clean_keyword ''mars''"
    by (simp_all add: clean_keyword_def phrase_def strip_def is_space_def is_upper_def
        sublist_code)
  have g: "get_user_interests ''ai'' = ''ai''"
    by (simp add: interests_eval)
  have n: "\<not> sublist phrase (get_user_interests ''ai'')"
    unfolding g by (simp add: phrase_def sublist_code)
  from C6_idempotent_clean [of "[''ai'', ''mars'']" "''ai''"] c n show ?thesis
    by simp
qed

section \<open>ArticleFetcher: failures give the empty list\<close>

text \<open>
  Neither version lets an exception out.  In \<open>app.py\<close> a failed call, an error status, a
  body that is not JSON and a body whose status field is not "success" all give the
  empty list; in \<open>flask_api.py\<close> the first three do.
\<close>

lemma app_fetch_never_raises: "\<exists>v. app_fetch_news_articles w i = Inr v"
  by (simp add: app_fetch_news_articles_def split: sum.splits)

lemma flask_fetch_never_raises: "\<exists>v. flask_fetch_news_articles w i = Inr v"
  by (simp add: flask_fetch_news_articles_def split: sum.splits)

lemma app_fetch_failed: "app_fetch_body w i = Inl e \<Longrightarrow> app_fetch_news_articles w i = Inr (JArr [])"
  by (simp add: app_fetch_news_articles_def)

lemma flask_fetch_failed:
  "flask_fetch_body w i = Inl e \<Longrightarrow> flask_fetch_news_articles w i = Inr (JArr [])"
  by (simp add: flask_fetch_news_articles_def)


lemma app_fetch_error_status:
  "http_get w (news_request w (app_query i)) = Responded r
   \<Longrightarrow> 400 \<le> status_code r \<Longrightarrow> status_code r < 600
   \<Longrightarrow> app_fetch_news_articles w i = Inr (JArr [])"
  by (rule app_fetch_failed [of w i "Exn HTTPError (error_text r)"])
     (simp add: app_fetch_body_def raise_for_status_def)

lemma app_fetch_soft_failure:
  "http_get w (news_request w (app_query i)) = Responded r
   \<Longrightarrow> json_result r = Inr (JObj d) \<Longrightarrow> dict_get d ''status'' JNull \<noteq> JStr ''success''
   \<Longrightarrow> app_fetch_news_articles w i = Inr (JArr [])"
  by (simp add: app_fetch_news_articles_def app_fetch_body_def split: sum.splits)

lemma app_fetch_unparsable:
  "http_get w (news_request w (app_query i)) = Responded r
   \<Longrightarrow> json_result r = Inl e
   \<Longrightarrow> app_fetch_news_articles w i = Inr (JArr [])"
  by (simp add: app_fetch_news_articles_def app_fetch_body_def split: sum.splits)


lemma flask_fetch_error_status:
  "http_get w (news_request w (flask_query i)) = Responded r
   \<Longrightarrow> 400 \<le> status_code r \<Longrightarrow> status_code r < 600
   \<Longrightarrow> flask_fetch_news_articles w i = Inr (JArr [])"
  by (rule flask_fetch_failed [of w i "Exn HTTPError (error_text r)"])
     (simp add: flask_fetch_body_def raise_for_status_def)

lemma flask_fetch_ignores_status:
  "http_get w (news_request w (flask_query i)) = Responded r
   \<Longrightarrow> \<not> (400 \<le> status_code r \<and> status_code r < 600)
   \<Longrightarrow> json_result r = Inr (JObj d) \<Longrightarrow> map_of d ''results'' = Some (JArr xs)
   \<Longrightarrow> flask_fetch_news_articles w i = Inr (JArr xs)"
  by (auto simp: flask_fetch_news_articles_def flask_fetch_body_def raise_for_status_def
      dict_get_def)

text \<open>
  Claim C1.  The claim asks for the empty list when a response of status 200 carries a
  JSON body whose status field is not the success marker.  \<open>app.py\<close> returns it;
  \<open>flask_api.py\<close> never reads the status field and returns what the body holds under
  "results".
\<close>

theorem C1_flask_soft_failure:
  "flask_fetch_news_articles
     (example_world\<lparr>http_get := (\<lambda>_. Responded soft_failure_response)\<rparr>) ''ai''
   = Inr (JArr [JObj [(''title'', JStr ''t'')]]) \<and>
   app_fetch_news_articles
     (example_world\<lparr>http_get := (\<lambda>_. Responded soft_failure_response)\<rparr>) ''ai''
   = Inr (JArr [])"
  by (simp add: flask_fetch_news_articles_def flask_fetch_body_def
      app_fetch_news_articles_def app_fetch_body_def raise_for_status_def
      dict_get_def example_world_def soft_failure_response_def)

section \<open>ArticleRanker\<close>










section \<open>The route\<close>

lemma recommend_no_topic:
  "\<not> truthy (dict_get d ''topic'' JNull) \<Longrightarrow>
   recommend graph (Inr (JObj d)) =
     (\<lparr>resp_status = 400,
       resp_body = [(''error'', JStr ''Missing required field: topic'')]\<rparr>, [])"
  by (simp add: recommend_def recommend_body_def)

text \<open>
  Claim C5.  A JSON object without a topic, or with a topic that Python reads as false
  (the empty string among them), is answered with status 400 and an error field, and
  the graph is not invoked.
\<close>

theorem C5_missing_topic:
  "map_of d ''topic'' = None \<or> (\<exists>t. map_of d ''topic'' = Some t \<and> \<not> truthy t) \<Longrightarrow>
   recommend graph (Inr (JObj d)) =
     (\<lparr>resp_status = 400,
       resp_body = [(''error'', JStr ''Missing required field: topic'')]\<rparr>, [])"
  by (rule recommend_no_topic) (auto simp: dict_get_def)

text \<open>The bodies \<open>{}\<close> and \<open>{"topic": ""}\<close>.\<close>

theorem C5_missing_topic_witness:
  "recommend (pipeline_stub) (Inr (JObj [])) =
     (\<lparr>resp_status = 400,
       resp_body = [(''error'', JStr ''Missing required field: topic'')]\<rparr>, []) \<and>
   recommend (pipeline_stub) (Inr (JObj [(''topic'', JStr [])])) =
     (\<lparr>resp_status = 400,
       resp_body = [(''error'', JStr ''Missing required field: topic'')]\<rparr>, [])"
  using C5_missing_topic [of "[]" "pipeline_stub"]
    C5_missing_topic [of "[(''topic'', JStr [])]" "pipeline_stub"]
  by simp

text \<open>
  Claim C10.  When \<open>request.get_json()\<close> raises (a body that is not JSON, a wrong content
  type) or returns a value that is not an object (\<open>null\<close> among them), the answer has
  status 500 and an error field, and the graph is not invoked.
\<close>

theorem C10_not_an_object:
  "\<not> is_object r \<Longrightarrow>
   \<exists>msg. recommend graph r =
     (\<lparr>resp_status = 500, resp_body = [(''error'', JStr msg)]\<rparr>, [])"
proof (cases r)
  case (Inl e)
  then show ?thesis by (simp add: recommend_def recommend_body_def)
next
  case (Inr v)
  assume "\<not> is_object r"
  with Inr show ?thesis
    by (cases v) (simp_all add: recommend_def recommend_body_def)
qed

text \<open>The body \<open>null\<close>, and a body that cannot be parsed.\<close>

theorem C10_not_an_object_witness:
  "recommend (pipeline_stub) (Inr JNull) =
     (\<lparr>resp_status = 500,
       resp_body = [(''error'', JStr (quoted ''NoneType'' @ '' object has no attribute '' @ quoted ''get''))]\<rparr>, []) \<and>
   recommend (pipeline_stub) (Inl (Exn OtherError ''400 Bad Request'')) =
     (\<lparr>resp_status = 500, resp_body = [(''error'', JStr ''400 Bad Request'')]\<rparr>, [])"
  using C10_not_an_object [of "Inr JNull" "pipeline_stub"]
    C10_not_an_object [of "Inl (Exn OtherError ''400 Bad Request'')" "pipeline_stub"]
  by (simp add: recommend_def recommend_body_def)

section \<open>The pipeline\<close>







lemma flask_rank_node_never_raises: "\<exists>u. flask_rank_node w st = Inr u"
  by (simp add: flask_rank_node_def split: sum.splits)





end
